theory Spec2Isabelle
  imports Main "HOL-Library.Word" "HOL-Library.Multiset"
begin

unbundle bit_operations_syntax

section \<open>DNS-01 validation (va/dns.go) in Isabelle/HOL\<close>

text \<open>
  The development embeds the three functions of \<^verbatim>\<open>va/dns.go\<close>: \<^verbatim>\<open>getAddrs\<close>,
  \<^verbatim>\<open>availableAddresses\<close> and \<^verbatim>\<open>validateDNS01\<close>, together with the parts of Go's
  standard library they call (\<^verbatim>\<open>unicode/utf8\<close>, \<^verbatim>\<open>strconv.Quote\<close>, \<^verbatim>\<open>fmt.Sprintf\<close>,
  \<^verbatim>\<open>crypto/sha256\<close>, \<^verbatim>\<open>encoding/base64\<close>, \<^verbatim>\<open>crypto/subtle\<close>, \<^verbatim>\<open>net.IP.To4\<close>).

  Conventions.
  \<^item> A Go \<^verbatim>\<open>string\<close> is a sequence of bytes: it is a \<^typ>\<open>string\<close> here, one
    \<^typ>\<open>char\<close> per byte, so \<^const>\<open>length\<close> is Go's \<^verbatim>\<open>len\<close> and \<^const>\<open>take\<close> is a
    slice \<^verbatim>\<open>s[0:n]\<close>. A \<^verbatim>\<open>[]byte\<close> used for bit operations is a list of 8-bit words.
  \<^item> A slice is a list; the \<^verbatim>\<open>nil\<close> slice is \<^term>\<open>[]\<close> (Go's \<^verbatim>\<open>len(nil)\<close> is 0).
  \<^item> A pointer result that may be \<^verbatim>\<open>nil\<close> is an \<^typ>\<open>'a option\<close>.
  \<^item> A method that calls the DNS client or the logger returns, next to its Go
    results, the list of those calls in the order they were made.
\<close>

subsection \<open>unicode/utf8\<close>

type_synonym rune = nat

definition RuneError :: rune where
  "RuneError = 0xFFFD"

definition MaxRune :: rune where
  "MaxRune = 0x10FFFF"

text \<open>
  The tables \<^verbatim>\<open>first\<close> and \<^verbatim>\<open>acceptRanges\<close> of package utf8: for a lead byte, the size
  of the sequence it starts and the range accepted for the second byte; \<open>None\<close> for a byte
  that starts no multi-byte sequence.
\<close>

definition first :: "nat \<Rightarrow> (nat \<times> nat \<times> nat) option" where
  "first s0 =
     (if 0xC2 \<le> s0 \<and> s0 \<le> 0xDF then Some (2, 0x80, 0xBF)
      else if s0 = 0xE0 then Some (3, 0xA0, 0xBF)
      else if 0xE1 \<le> s0 \<and> s0 \<le> 0xEC then Some (3, 0x80, 0xBF)
      else if s0 = 0xED then Some (3, 0x80, 0x9F)
      else if 0xEE \<le> s0 \<and> s0 \<le> 0xEF then Some (3, 0x80, 0xBF)
      else if s0 = 0xF0 then Some (4, 0x90, 0xBF)
      else if 0xF1 \<le> s0 \<and> s0 \<le> 0xF3 then Some (4, 0x80, 0xBF)
      else if s0 = 0xF4 then Some (4, 0x80, 0x8F)
      else None)"

definition continuation :: "nat \<Rightarrow> bool" where
  "continuation b \<longleftrightarrow> 0x80 \<le> b \<and> b \<le> 0xBF"

text \<open>\<^verbatim>\<open>utf8.DecodeRuneInString\<close>: the rune at the head of the string and its width in bytes.\<close>

definition DecodeRuneInString :: "string \<Rightarrow> rune \<times> nat" where
  "DecodeRuneInString s =
     (if length s < 1 then (RuneError, 0)
      else
        let s0 = of_char (s ! 0) :: nat in
        if s0 < 0x80 then (s0, 1)
        else case first s0 of
          None \<Rightarrow> (RuneError, 1)
        | Some (sz, lo, hi) \<Rightarrow>
            if length s < sz then (RuneError, 1)
            else
              let s1 = of_char (s ! 1) :: nat in
              if s1 < lo \<or> hi < s1 then (RuneError, 1)
              else if sz \<le> 2 then (s0 mod 32 * 64 + s1 mod 64, 2)
              else
                let s2 = of_char (s ! 2) :: nat in
                if \<not> continuation s2 then (RuneError, 1)
                else if sz \<le> 3 then (s0 mod 16 * 4096 + s1 mod 64 * 64 + s2 mod 64, 3)
                else
                  let s3 = of_char (s ! 3) :: nat in
                  if \<not> continuation s3 then (RuneError, 1)
                  else (s0 mod 8 * 262144 + s1 mod 64 * 4096 + s2 mod 64 * 64 + s3 mod 64, 4))"

definition encode3 :: "rune \<Rightarrow> string" where
  "encode3 r = [char_of (0xE0 + r div 4096), char_of (0x80 + r div 64 mod 64),
                char_of (0x80 + r mod 64)]"

text \<open>\<^verbatim>\<open>utf8.EncodeRune\<close> / \<^verbatim>\<open>AppendRune\<close>: the bytes a rune is written as.\<close>

definition EncodeRune :: "rune \<Rightarrow> string" where
  "EncodeRune r =
     (if r \<le> 0x7F then [char_of r]
      else if r \<le> 0x7FF then [char_of (0xC0 + r div 64), char_of (0x80 + r mod 64)]
      else if r > MaxRune \<or> (0xD800 \<le> r \<and> r \<le> 0xDFFF) then encode3 RuneError
      else if r \<le> 0xFFFF then encode3 r
      else [char_of (0xF0 + r div 262144), char_of (0x80 + r div 4096 mod 64),
            char_of (0x80 + r div 64 mod 64), char_of (0x80 + r mod 64)])"

text \<open>
  The number of bytes one iteration consumes: the width of the rune at the head, which is
  at least 1 on a string that is not empty.
\<close>

definition advance :: "string \<Rightarrow> nat" where
  "advance s = max 1 (snd (DecodeRuneInString s))"

text \<open>\<^verbatim>\<open>utf8.ValidString\<close>: no position decodes to the error rune with width 1.\<close>

function ValidString :: "string \<Rightarrow> bool" where
  "ValidString [] = True"
| "ValidString (c # cs) =
     (if DecodeRuneInString (c # cs) = (RuneError, 1) then False
      else ValidString (drop (advance (c # cs)) (c # cs)))"
  by pat_completeness auto
termination
  by (relation "measure length") (auto simp: advance_def)

text \<open>
  The runes of \<^verbatim>\<open>for _, v := range s\<close>: each byte that starts no valid encoding yields
  the error rune and the loop moves on by one byte.
\<close>

function range_runes :: "string \<Rightarrow> rune list" where
  "range_runes [] = []"
| "range_runes (c # cs) =
     fst (DecodeRuneInString (c # cs)) # range_runes (drop (advance (c # cs)) (c # cs))"
  by pat_completeness auto
termination
  by (relation "measure length") (auto simp: advance_def)

text \<open>\<^verbatim>\<open>utf8.ValidRune\<close>: a code point up to \<^const>\<open>MaxRune\<close> that is no surrogate half.\<close>

definition ValidRune :: "rune \<Rightarrow> bool" where
  "ValidRune r \<longleftrightarrow> (r < 0xD800 \<or> 0xDFFF < r) \<and> r \<le> MaxRune"

text \<open>\<^verbatim>\<open>utf8.RuneCountInString\<close>: the number of characters, an invalid byte counting as one.\<close>

definition RuneCountInString :: "string \<Rightarrow> nat" where
  "RuneCountInString s = length (range_runes s)"

subsection \<open>strconv.Quote\<close>

text \<open>
  \<^verbatim>\<open>strconv.IsPrint\<close> decides Latin-1 by two comparisons and every other rune by a table
  of the Unicode ranges Go counts as printable. The table is a parameter here: a
  function telling, for a rune above \<open>0xFF\<close>, whether the table holds it.
\<close>

type_synonym isPrintTable = "rune \<Rightarrow> bool"

definition IsPrint :: "isPrintTable \<Rightarrow> rune \<Rightarrow> bool" where
  "IsPrint tbl r =
     (if r \<le> 0xFF then
        (if 0x20 \<le> r \<and> r \<le> 0x7E then True
         else if 0xA1 \<le> r \<and> r \<le> 0xFF then r \<noteq> 0xAD
         else False)
      else tbl r)"

definition lowerhex :: string where
  "lowerhex = ''0123456789abcdef''"

definition hexdigits :: "nat \<Rightarrow> nat \<Rightarrow> string" where
  "hexdigits n r = map (\<lambda>k. lowerhex ! (r div 16 ^ k mod 16)) (rev [0..<n])"

definition backslash :: char where
  "backslash = CHR 0x5C"

definition dquote :: char where
  "dquote = CHR 0x22"

text \<open>\<^verbatim>\<open>appendEscapedRune\<close> with the quote \<^verbatim>\<open>"\<close>, neither ASCII-only nor graphic-only.\<close>

definition appendEscapedRune :: "isPrintTable \<Rightarrow> rune \<Rightarrow> string" where
  "appendEscapedRune tbl r =
     (if r = of_char dquote \<or> r = of_char backslash then [backslash, char_of r]
      else if IsPrint tbl r then EncodeRune r
      else if r = 7 then [backslash, CHR ''a'']
      else if r = 8 then [backslash, CHR ''b'']
      else if r = 12 then [backslash, CHR ''f'']
      else if r = 10 then [backslash, CHR ''n'']
      else if r = 13 then [backslash, CHR ''r'']
      else if r = 9 then [backslash, CHR ''t'']
      else if r = 11 then [backslash, CHR ''v'']
      else if r < 0x20 \<or> r = 0x7F then [backslash, CHR ''x''] @ hexdigits 2 r
      else if r > MaxRune \<or> (0xD800 \<le> r \<and> r \<le> 0xDFFF) then
        [backslash, CHR ''u''] @ hexdigits 4 RuneError
      else if r < 0x10000 then [backslash, CHR ''u''] @ hexdigits 4 r
      else [backslash, CHR ''U''] @ hexdigits 8 r)"

text \<open>
  The loop of \<^verbatim>\<open>appendQuotedWith\<close>: a byte that starts no valid encoding is written as
  \<^verbatim>\<open>\x\<close> and its two hexadecimal digits, every other rune through \<^const>\<open>appendEscapedRune\<close>.
\<close>

function quoteBody :: "isPrintTable \<Rightarrow> string \<Rightarrow> string" where
  "quoteBody tbl [] = []"
| "quoteBody tbl (c # cs) =
     (let (r, width) = (if of_char c < (0x80 :: nat) then (of_char c, 1)
                        else DecodeRuneInString (c # cs))
      in (if width = 1 \<and> r = RuneError
          then [backslash, CHR ''x''] @ hexdigits 2 (of_char c)
          else appendEscapedRune tbl r)
         @ quoteBody tbl (drop (max 1 width) (c # cs)))"
  by pat_completeness auto
termination
  by (relation "measure (\<lambda>(tbl, s). length s)") (auto split: if_splits)

definition Quote :: "isPrintTable \<Rightarrow> string \<Rightarrow> string" where
  "Quote tbl s = [dquote] @ quoteBody tbl s @ [dquote]"

subsection \<open>fmt.Sprintf\<close>

text \<open>
  The operands \<^verbatim>\<open>dns.go\<close> formats are strings, integers and errors. Under \<^verbatim>\<open>%v\<close> and
  \<^verbatim>\<open>%s\<close> package fmt prints an error through its \<^verbatim>\<open>Error\<close> method, so an error operand
  is passed as the string that method returns.
\<close>

datatype arg = AString string | AInt int

function decimal :: "nat \<Rightarrow> string" where
  "decimal n = (if n < 10 then [char_of (48 + n)]
                else decimal (n div 10) @ [char_of (48 + n mod 10)])"
  by pat_completeness auto
termination
  by (relation "measure id") auto

declare decimal.simps [simp del]

definition itoa :: "int \<Rightarrow> string" where
  "itoa i = (if i < 0 then CHR ''-'' # decimal (nat (- i)) else decimal (nat i))"

fun typeName :: "arg \<Rightarrow> string" where
  "typeName (AString s) = ''string''"
| "typeName (AInt i) = ''int''"

fun printValue :: "arg \<Rightarrow> string" where
  "printValue (AString s) = s"
| "printValue (AInt i) = itoa i"

text \<open>
  \<^verbatim>\<open>printArg\<close> for the verbs \<^verbatim>\<open>dns.go\<close> uses: \<^verbatim>\<open>%v\<close>, \<^verbatim>\<open>%s\<close> and \<^verbatim>\<open>%q\<close> of a string,
  \<^verbatim>\<open>%v\<close> and \<^verbatim>\<open>%d\<close> of an integer. Any other pairing is reported the way fmt
  reports a verb that does not fit its operand; the further verbs fmt knows
  (\<^verbatim>\<open>%x\<close>, \<^verbatim>\<open>%c\<close>, \<^verbatim>\<open>%T\<close>, ...) are not modelled.
\<close>

definition printArg :: "isPrintTable \<Rightarrow> arg \<Rightarrow> char \<Rightarrow> string" where
  "printArg tbl a verb =
     (case a of
        AString s \<Rightarrow>
          if verb = CHR ''v'' \<or> verb = CHR ''s'' then s
          else if verb = CHR ''q'' then Quote tbl s
          else ''%!'' @ [verb] @ ''('' @ typeName a @ ''='' @ printValue a @ '')''
      | AInt i \<Rightarrow>
          if verb = CHR ''v'' \<or> verb = CHR ''d'' then itoa i
          else ''%!'' @ [verb] @ ''('' @ typeName a @ ''='' @ printValue a @ '')'')"

fun extraArgs :: "arg list \<Rightarrow> string" where
  "extraArgs [] = []"
| "extraArgs [a] = typeName a @ ''='' @ printValue a"
| "extraArgs (a # b # bs) = typeName a @ ''='' @ printValue a @ '', '' @ extraArgs (b # bs)"

definition extra :: "arg list \<Rightarrow> string" where
  "extra a = (if a = [] then [] else ''%!(EXTRA '' @ extraArgs a @ '')'')"

definition flag :: "char \<Rightarrow> bool" where
  "flag c \<longleftrightarrow> c \<in> set ''#0+- ''"

text \<open>
  \<^verbatim>\<open>doPrintf\<close>: text up to a percent sign is copied; a directive is a percent sign,
  flags and one verb byte. \<^verbatim>\<open>%%\<close> prints a percent sign and takes no operand; a verb
  with no operand left prints \<^verbatim>\<open>%!verb(MISSING)\<close>; a percent sign with no verb
  prints \<^verbatim>\<open>%!(NOVERB)\<close>; operands left over are listed as \<^verbatim>\<open>%!(EXTRA ...)\<close>.
  Widths, precisions, argument indexes and the effect of a flag on an operand are not
  modelled: no format of \<^verbatim>\<open>dns.go\<close> has one.
\<close>

function doPrintf :: "isPrintTable \<Rightarrow> string \<Rightarrow> arg list \<Rightarrow> string" where
  "doPrintf tbl [] a = extra a"
| "doPrintf tbl (c # cs) a =
     (if c \<noteq> CHR ''%'' then c # doPrintf tbl cs a
      else case dropWhile flag cs of
        [] \<Rightarrow> ''%!(NOVERB)'' @ extra a
      | verb # rest \<Rightarrow>
          if verb = CHR ''%'' then CHR ''%'' # doPrintf tbl rest a
          else (case a of
                  [] \<Rightarrow> ''%!'' @ [verb] @ ''(MISSING)'' @ doPrintf tbl rest []
                | x # xs \<Rightarrow> printArg tbl x verb @ doPrintf tbl rest xs))"
  by pat_completeness auto
termination
proof (relation "measure (\<lambda>(tbl, f, a). length f)")
  fix tbl :: isPrintTable and c :: char and cs rest :: string and a :: "arg list" and verb :: char
  assume "dropWhile flag cs = verb # rest"
  then have "length (verb # rest) \<le> length cs"
    by (metis length_dropWhile_le)
  then show "((tbl, rest, a), (tbl, c # cs, a)) \<in> measure (\<lambda>(tbl, f, a). length f)"
    by simp
next
  fix tbl :: isPrintTable and c :: char and cs rest :: string and a :: "arg list" and verb :: char
  assume "dropWhile flag cs = verb # rest"
  then have "length (verb # rest) \<le> length cs"
    by (metis length_dropWhile_le)
  then show "((tbl, rest, []), (tbl, c # cs, a)) \<in> measure (\<lambda>(tbl, f, a). length f)"
    by simp
next
  fix tbl :: isPrintTable and c :: char and cs rest :: string and a xs :: "arg list"
    and verb :: char
  assume "dropWhile flag cs = verb # rest"
  then have "length (verb # rest) \<le> length cs"
    by (metis length_dropWhile_le)
  then show "((tbl, rest, xs), (tbl, c # cs, a)) \<in> measure (\<lambda>(tbl, f, a). length f)"
    by simp
qed auto

definition Sprintf :: "isPrintTable \<Rightarrow> string \<Rightarrow> arg list \<Rightarrow> string" where
  "Sprintf tbl format a = doPrintf tbl format a"

subsection \<open>crypto/sha256\<close>

type_synonym byte = "8 word"
type_synonym uint32 = "32 word"

text \<open>The conversion \<^verbatim>\<open>[]byte(s)\<close> of a string.\<close>

definition bytes :: "string \<Rightarrow> byte list" where
  "bytes s = map (\<lambda>c. of_nat (of_char c)) s"

type_synonym sha_state =
  "uint32 \<times> uint32 \<times> uint32 \<times> uint32 \<times> uint32 \<times> uint32 \<times> uint32 \<times> uint32"

definition init :: sha_state where
  "init = (0x6A09E667, 0xBB67AE85, 0x3C6EF372, 0xA54FF53A,
           0x510E527F, 0x9B05688C, 0x1F83D9AB, 0x5BE0CD19)"

definition K :: "uint32 list" where
  "K = [0x428A2F98, 0x71374491, 0xB5C0FBCF, 0xE9B5DBA5, 0x3956C25B, 0x59F111F1, 0x923F82A4,
        0xAB1C5ED5, 0xD807AA98, 0x12835B01, 0x243185BE, 0x550C7DC3, 0x72BE5D74, 0x80DEB1FE,
        0x9BDC06A7, 0xC19BF174, 0xE49B69C1, 0xEFBE4786, 0x0FC19DC6, 0x240CA1CC, 0x2DE92C6F,
        0x4A7484AA, 0x5CB0A9DC, 0x76F988DA, 0x983E5152, 0xA831C66D, 0xB00327C8, 0xBF597FC7,
        0xC6E00BF3, 0xD5A79147, 0x06CA6351, 0x14292967, 0x27B70A85, 0x2E1B2138, 0x4D2C6DFC,
        0x53380D13, 0x650A7354, 0x766A0ABB, 0x81C2C92E, 0x92722C85, 0xA2BFE8A1, 0xA81A664B,
        0xC24B8B70, 0xC76C51A3, 0xD192E819, 0xD6990624, 0xF40E3585, 0x106AA070, 0x19A4C116,
        0x1E376C08, 0x2748774C, 0x34B0BCB5, 0x391C0CB3, 0x4ED8AA4A, 0x5B9CCA4F, 0x682E6FF3,
        0x748F82EE, 0x78A5636F, 0x84C87814, 0x8CC70208, 0x90BEFFFA, 0xA4506CEB, 0xBEF9A3F7,
        0xC67178F2]"

definition ror :: "uint32 \<Rightarrow> nat \<Rightarrow> uint32" where
  "ror x n = word_rotr n x"

definition be32 :: "byte list \<Rightarrow> uint32" where
  "be32 p = push_bit 24 (ucast (p ! 0)) OR push_bit 16 (ucast (p ! 1))
            OR push_bit 8 (ucast (p ! 2)) OR ucast (p ! 3)"

text \<open>The message schedule of one 64-byte chunk: 16 words read big-endian, 48 derived.\<close>

definition schedule_step :: "uint32 list \<Rightarrow> uint32 list" where
  "schedule_step w =
     (let v1 = w ! (length w - 2);
          t1 = ror v1 17 XOR ror v1 19 XOR drop_bit 10 v1;
          v2 = w ! (length w - 15);
          t2 = ror v2 7 XOR ror v2 18 XOR drop_bit 3 v2
      in w @ [t1 + w ! (length w - 7) + t2 + w ! (length w - 16)])"

definition schedule :: "byte list \<Rightarrow> uint32 list" where
  "schedule p = (schedule_step ^^ 48) (map (\<lambda>i. be32 (take 4 (drop (4 * i) p))) [0..<16])"

fun round :: "uint32 \<times> uint32 \<Rightarrow> sha_state \<Rightarrow> sha_state" where
  "round (k, w) (a, b, c, d, e, f, g, h) =
     (let t1 = h + (ror e 6 XOR ror e 11 XOR ror e 25) + ((e AND f) XOR (NOT e AND g)) + k + w;
          t2 = (ror a 2 XOR ror a 13 XOR ror a 22) + ((a AND b) XOR (a AND c) XOR (b AND c))
      in (t1 + t2, a, b, c, d + t1, e, f, g))"

fun add_state :: "sha_state \<Rightarrow> sha_state \<Rightarrow> sha_state" where
  "add_state (a, b, c, d, e, f, g, h) (a', b', c', d', e', f', g', h') =
     (a + a', b + b', c + c', d + d', e + e', f + f', g + g', h + h')"

text \<open>\<^verbatim>\<open>block\<close> on one chunk, and on all the chunks of a buffer whose length is a multiple of 64.\<close>

definition block1 :: "sha_state \<Rightarrow> byte list \<Rightarrow> sha_state" where
  "block1 st p = add_state st (fold round (zip K (schedule p)) st)"

definition block :: "sha_state \<Rightarrow> byte list \<Rightarrow> sha_state" where
  "block st p = fold (\<lambda>i st. block1 st (take 64 (drop (64 * i) p))) [0..<length p div 64] st"

definition put32 :: "uint32 \<Rightarrow> byte list" where
  "put32 x = [ucast (drop_bit 24 x), ucast (drop_bit 16 x), ucast (drop_bit 8 x), ucast x]"

definition put64 :: "64 word \<Rightarrow> byte list" where
  "put64 x = map (\<lambda>k. ucast (drop_bit (8 * k) x)) (rev [0..<8])"

fun digest_bytes :: "sha_state \<Rightarrow> byte list" where
  "digest_bytes (a, b, c, d, e, f, g, h) =
     put32 a @ put32 b @ put32 c @ put32 d @ put32 e @ put32 f @ put32 g @ put32 h"

text \<open>
  \<^verbatim>\<open>h := sha256.New(); h.Write(data); h.Sum(nil)\<close>: the data, the byte \<open>0x80\<close>, zero bytes
  up to 56 modulo 64, and the length in bits as a 64-bit big-endian number, run through
  \<^const>\<open>block\<close>.
\<close>

definition padding :: "nat \<Rightarrow> byte list" where
  "padding len =
     (0x80 # replicate ((if len mod 64 < 56 then 56 - len mod 64 else 64 + 56 - len mod 64) - 1) 0)
     @ put64 (push_bit 3 (of_nat len))"

definition sha256_Sum :: "byte list \<Rightarrow> byte list" where
  "sha256_Sum data = digest_bytes (block init (data @ padding (length data)))"

subsection \<open>encoding/base64\<close>

record Encoding =
  encode :: string
  padChar :: "char option"

definition encodeURL :: string where
  "encodeURL = ''ABCDEFGHIJKLMNOPQRSTUVWXYZabcdefghijklmnopqrstuvwxyz0123456789-_''"

text \<open>\<^verbatim>\<open>base64.RawURLEncoding\<close>: the URL alphabet with \<^verbatim>\<open>NoPadding\<close>.\<close>

definition RawURLEncoding :: Encoding where
  "RawURLEncoding = \<lparr>encode = encodeURL, padChar = None\<rparr>"

definition pad :: "Encoding \<Rightarrow> nat \<Rightarrow> string" where
  "pad enc n = (case padChar enc of None \<Rightarrow> [] | Some c \<Rightarrow> replicate n c)"

text \<open>
  \<^verbatim>\<open>Encode\<close>: three source bytes make a 24-bit value written as four characters; a
  remainder of one or two bytes is written as two or three characters, and as padding where
  the encoding has a padding character.
\<close>

fun Encode :: "Encoding \<Rightarrow> byte list \<Rightarrow> string" where
  "Encode enc (a # b # c # rest) =
     (let val = push_bit 16 (unat a) OR push_bit 8 (unat b) OR unat c
      in [encode enc ! (drop_bit 18 val AND 0x3F), encode enc ! (drop_bit 12 val AND 0x3F),
          encode enc ! (drop_bit 6 val AND 0x3F), encode enc ! (val AND 0x3F)]
         @ Encode enc rest)"
| "Encode enc [a, b] =
     (let val = push_bit 16 (unat a) OR push_bit 8 (unat b)
      in [encode enc ! (drop_bit 18 val AND 0x3F), encode enc ! (drop_bit 12 val AND 0x3F),
          encode enc ! (drop_bit 6 val AND 0x3F)] @ pad enc 1)"
| "Encode enc [a] =
     (let val = push_bit 16 (unat a)
      in [encode enc ! (drop_bit 18 val AND 0x3F), encode enc ! (drop_bit 12 val AND 0x3F)]
         @ pad enc 2)"
| "Encode enc [] = []"

definition EncodeToString :: "Encoding \<Rightarrow> byte list \<Rightarrow> string" where
  "EncodeToString enc src = Encode enc src"

subsection \<open>crypto/subtle\<close>

definition ConstantTimeByteEq :: "byte \<Rightarrow> byte \<Rightarrow> int" where
  "ConstantTimeByteEq x y = uint (drop_bit 31 ((ucast (x XOR y) :: uint32) - 1))"

text \<open>
  \<^verbatim>\<open>ConstantTimeCompare\<close>: 0 at once when the lengths differ; otherwise the XOR of every
  pair of bytes is ORed into one byte, which is compared with 0 at the end.
\<close>

definition ConstantTimeCompare :: "byte list \<Rightarrow> byte list \<Rightarrow> int" where
  "ConstantTimeCompare x y =
     (if length x \<noteq> length y then 0
      else ConstantTimeByteEq (fold (\<lambda>i v. v OR (x ! i XOR y ! i)) [0..<length x] 0) 0)"

subsection \<open>net.IP\<close>

type_synonym IP = "byte list"

text \<open>
  \<^verbatim>\<open>To4\<close>: a 4-byte address as it is, the 16-byte form \<^verbatim>\<open>::ffff:a.b.c.d\<close> as its last
  four bytes, and \<^verbatim>\<open>nil\<close> (\<open>None\<close>) for everything else.
\<close>

definition isZeros :: "IP \<Rightarrow> bool" where
  "isZeros p = list_all (\<lambda>b. b = 0) p"

definition To4 :: "IP \<Rightarrow> IP option" where
  "To4 ip =
     (if length ip = 4 then Some ip
      else if length ip = 16 \<and> isZeros (take 10 ip) \<and> ip ! 10 = 0xff \<and> ip ! 11 = 0xff
        then Some (take 4 (drop 12 ip))
      else None)"

subsection \<open>Packages probs and core\<close>

text \<open>A Go \<^verbatim>\<open>error\<close> is known by the text its \<^verbatim>\<open>Error\<close> method returns.\<close>

datatype error = New string

fun Error :: "error \<Rightarrow> string" where
  "Error (New text) = text"

text \<open>
  Modelled from the spec: package \<^verbatim>\<open>probs\<close> is not part of \<^verbatim>\<open>va/dns.go\<close>. The spec gives
  a problem a kind, one of Malformed, DNS, UnknownHost and Unauthorized, and a detail
  text. The constructors are called in \<^verbatim>\<open>dns.go\<close> with a format and its operands
  (\<^verbatim>\<open>probs.DNS("%v", err)\<close>), so the detail is the format run through \<^const>\<open>Sprintf\<close>.
\<close>

datatype ProblemType = MalformedProblem | DNSProblem | UnknownHostProblem | UnauthorizedProblem

record ProblemDetails =
  Kind :: ProblemType
  Detail :: string

definition Malformed :: "isPrintTable \<Rightarrow> string \<Rightarrow> arg list \<Rightarrow> ProblemDetails" where
  "Malformed tbl detail a = \<lparr>Kind = MalformedProblem, Detail = Sprintf tbl detail a\<rparr>"

definition DNS :: "isPrintTable \<Rightarrow> string \<Rightarrow> arg list \<Rightarrow> ProblemDetails" where
  "DNS tbl detail a = \<lparr>Kind = DNSProblem, Detail = Sprintf tbl detail a\<rparr>"

definition UnknownHost :: "isPrintTable \<Rightarrow> string \<Rightarrow> arg list \<Rightarrow> ProblemDetails" where
  "UnknownHost tbl detail a = \<lparr>Kind = UnknownHostProblem, Detail = Sprintf tbl detail a\<rparr>"

definition Unauthorized :: "isPrintTable \<Rightarrow> string \<Rightarrow> arg list \<Rightarrow> ProblemDetails" where
  "Unauthorized tbl detail a = \<lparr>Kind = UnauthorizedProblem, Detail = Sprintf tbl detail a\<rparr>"

text \<open>
  Modelled from the spec: the types of package \<^verbatim>\<open>core\<close> are not part of \<^verbatim>\<open>va/dns.go\<close>.
  The spec gives an identifier a type (DNS or another) and a value, a challenge its
  provided key authorization, a validation record a hostname and the authorities, and
  fixes the prefix of the challenge subdomain as \<^verbatim>\<open>_acme-challenge\<close>.
\<close>

datatype IdentifierType = IdentifierDNS | IdentifierOther string

record AcmeIdentifier =
  Type :: IdentifierType
  Value :: string

record Challenge =
  ProvidedKeyAuthorization :: string

record ValidationRecord =
  Authorities :: "string list"
  Hostname :: string

definition DNSPrefix :: string where
  "DNSPrefix = ''_acme-challenge''"

subsection \<open>The validation authority\<close>

text \<open>
  The DNS client is the interface the authority is built with: \<^verbatim>\<open>LookupHost\<close> returns
  addresses and an error, \<^verbatim>\<open>LookupTXT\<close> returns the TXT values, the authorities that
  answered and an error; the error is \<^verbatim>\<open>nil\<close> (\<open>None\<close>) on success. Both take the
  caller's context, of a type left open.
\<close>

record 'ctx DNSClient =
  LookupHost :: "'ctx \<Rightarrow> string \<Rightarrow> IP list \<times> error option"
  LookupTXT :: "'ctx \<Rightarrow> string \<Rightarrow> string list \<times> string list \<times> error option"

record 'ctx ValidationAuthorityImpl =
  dnsClient :: "'ctx DNSClient"

text \<open>
  What a method does besides returning: the queries it sends to the DNS client and the
  lines it hands to the logger, each log line as its format and operands.
\<close>

datatype logarg = LString string | LIdentifier AcmeIdentifier | LError error | LAddrs "IP list"

datatype event =
  QueryHost string
| QueryTXT string
| Debugf string "logarg list"
| Infof string "logarg list"

text \<open>
  Modelled from the spec: \<^verbatim>\<open>replaceInvalidUTF8\<close> is defined outside \<^verbatim>\<open>va/dns.go\<close>. The
  spec has it repair invalid byte sequences so that the text is safe to render: valid
  text is returned as it is, and in any other text each byte that starts no valid
  encoding becomes the replacement character U+FFFD, as Go's \<^verbatim>\<open>range\<close> over a string
  reads it.
\<close>

definition replaceInvalidUTF8 :: "string \<Rightarrow> string" where
  "replaceInvalidUTF8 input =
     (if ValidString input then input else concat (map EncodeRune (range_runes input)))"

text \<open>\<^verbatim>\<open>getAddrs\<close> (lines 19-31).\<close>

definition getAddrs ::
  "isPrintTable \<Rightarrow> 'ctx ValidationAuthorityImpl \<Rightarrow> 'ctx \<Rightarrow> string
    \<Rightarrow> (IP list \<times> ProblemDetails option) \<times> event list" where
  "getAddrs tbl va ctx hostname =
     (let (addrs, err) = LookupHost (dnsClient va) ctx hostname in
      case err of
        Some e \<Rightarrow>
          (let problem = DNS tbl ''%v'' [AString (Error e)]
           in (([], Some problem), [QueryHost hostname]))
      | None \<Rightarrow>
          if length addrs = 0 then
            (([], Some (UnknownHost tbl ''No valid IP addresses found for %s'' [AString hostname])),
             [QueryHost hostname])
          else
            ((addrs, None),
             [QueryHost hostname,
              Debugf ''Resolved addresses for %s: %s'' [LString hostname, LAddrs addrs]]))"

text \<open>
  \<^verbatim>\<open>availableAddresses\<close> (lines 35-44): the loop appends each address to one of the two
  named results, which start as \<^verbatim>\<open>nil\<close>.
\<close>

fun availableAddresses_loop :: "IP list \<Rightarrow> IP list \<Rightarrow> IP list \<Rightarrow> IP list \<times> IP list" where
  "availableAddresses_loop [] v4 v6 = (v4, v6)"
| "availableAddresses_loop (addr # allAddrs) v4 v6 =
     (if To4 addr \<noteq> None then availableAddresses_loop allAddrs (v4 @ [addr]) v6
      else availableAddresses_loop allAddrs v4 (v6 @ [addr]))"

definition availableAddresses :: "IP list \<Rightarrow> IP list \<times> IP list" where
  "availableAddresses allAddrs = availableAddresses_loop allAddrs [] []"

text \<open>
  \<^verbatim>\<open>validateDNS01\<close> (lines 46-93). The digest of lines 53-55, the loop of lines 73-81
  and the message of lines 83-92 are definitions of their own.
\<close>

definition authorizedKeysDigest :: "string \<Rightarrow> string" where
  "authorizedKeysDigest keyAuthorization =
     EncodeToString RawURLEncoding (sha256_Sum (bytes keyAuthorization))"

fun compare_loop ::
  "string list \<Rightarrow> string \<Rightarrow> string list \<Rightarrow> AcmeIdentifier \<Rightarrow> ValidationRecord list option" where
  "compare_loop [] digest authorities identifier = None"
| "compare_loop (element # txts) digest authorities identifier =
     (if ConstantTimeCompare (bytes element) (bytes digest) = 1
      then Some [\<lparr>Authorities = authorities, Hostname = Value identifier\<rparr>]
      else compare_loop txts digest authorities identifier)"

definition incorrectRecord ::
  "isPrintTable \<Rightarrow> string list \<Rightarrow> string \<Rightarrow> ProblemDetails" where
  "incorrectRecord tbl txts challengeSubdomain =
     (let invalidRecord = txts ! 0;
          invalidRecord = (if length invalidRecord > 100 then take 100 invalidRecord @ ''...''
                           else invalidRecord);
          andMore = (if length txts > 1
                     then Sprintf tbl '' (and %d more)'' [AInt (int (length txts) - 1)]
                     else [])
      in Unauthorized tbl ''Incorrect TXT record %q%s found at %s''
           [AString (replaceInvalidUTF8 invalidRecord), AString andMore,
            AString challengeSubdomain])"

definition validateDNS01 ::
  "isPrintTable \<Rightarrow> 'ctx ValidationAuthorityImpl \<Rightarrow> 'ctx \<Rightarrow> AcmeIdentifier \<Rightarrow> Challenge
    \<Rightarrow> (ValidationRecord list \<times> ProblemDetails option) \<times> event list" where
  "validateDNS01 tbl va ctx identifier challenge =
     (if Type identifier \<noteq> IdentifierDNS then
        (([], Some (Malformed tbl ''Identifier type for DNS was not itself DNS'' [])),
         [Infof ''Identifier type for DNS challenge was not DNS: %s'' [LIdentifier identifier]])
      else
        let digest = authorizedKeysDigest (ProvidedKeyAuthorization challenge);
            challengeSubdomain = Sprintf tbl ''%s.%s'' [AString DNSPrefix, AString (Value identifier)];
            (txts, authorities, err) = LookupTXT (dnsClient va) ctx challengeSubdomain
        in case err of
          Some e \<Rightarrow>
            (([], Some (DNS tbl (Error e) [])),
             [QueryTXT challengeSubdomain,
              Infof ''Failed to lookup TXT records for %s. err=[%#v] errStr=[%s]''
                [LIdentifier identifier, LError e, LError e]])
        | None \<Rightarrow>
            if length txts = 0 then
              (([], Some (Unauthorized tbl ''No TXT record found at %s'' [AString challengeSubdomain])),
               [QueryTXT challengeSubdomain])
            else (case compare_loop txts digest authorities identifier of
                    Some records \<Rightarrow> ((records, None), [QueryTXT challengeSubdomain])
                  | None \<Rightarrow>
                      (([], Some (incorrectRecord tbl txts challengeSubdomain)),
                       [QueryTXT challengeSubdomain])))"

subsection \<open>Test doubles and observers\<close>

text \<open>A DNS client that answers every TXT query, or every host query, with fixed values.\<close>

definition stubTXT :: "string list \<Rightarrow> string list \<Rightarrow> error option \<Rightarrow> unit DNSClient" where
  "stubTXT txts authorities err =
     \<lparr>LookupHost = (\<lambda>ctx hostname. ([], None)),
      LookupTXT = (\<lambda>ctx name. (txts, authorities, err))\<rparr>"

definition stubHost :: "IP list \<Rightarrow> error option \<Rightarrow> unit DNSClient" where
  "stubHost addrs err =
     \<lparr>LookupHost = (\<lambda>ctx hostname. (addrs, err)),
      LookupTXT = (\<lambda>ctx name. ([], [], None))\<rparr>"

fun isQuery :: "event \<Rightarrow> bool" where
  "isQuery (QueryHost hostname) = True"
| "isQuery (QueryTXT name) = True"
| "isQuery (Debugf format a) = False"
| "isQuery (Infof format a) = False"

subsection \<open>The no-match message as the specification words it\<close>

text \<open>
  The specification counts the 100 of the truncation in characters. The first \<open>n\<close>
  characters of a text are the bytes of its first \<open>n\<close> runes.
\<close>

fun first_characters :: "nat \<Rightarrow> string \<Rightarrow> string" where
  "first_characters 0 s = []"
| "first_characters (Suc n) [] = []"
| "first_characters (Suc n) (c # cs) =
     take (advance (c # cs)) (c # cs) @ first_characters n (drop (advance (c # cs)) (c # cs))"

definition truncate_characters :: "string \<Rightarrow> string" where
  "truncate_characters s =
     (if RuneCountInString s > 100 then first_characters 100 s @ ''...'' else s)"

text \<open>
  The message of section 4.4, step 8: the first record truncated to at most 100 characters,
  then sanitized, then the count of the other records.
\<close>

definition incorrectRecord_characters ::
  "isPrintTable \<Rightarrow> string list \<Rightarrow> string \<Rightarrow> ProblemDetails" where
  "incorrectRecord_characters tbl txts challengeSubdomain =
     (let invalidRecord = truncate_characters (txts ! 0);
          andMore = (if length txts > 1
                     then Sprintf tbl '' (and %d more)'' [AInt (int (length txts) - 1)]
                     else [])
      in Unauthorized tbl ''Incorrect TXT record %q%s found at %s''
           [AString (replaceInvalidUTF8 invalidRecord), AString andMore,
            AString challengeSubdomain])"

text \<open>
  The message of the design note of section 9: the first record sanitized first, and the
  well-formed text then truncated to at most 100 characters.
\<close>

definition incorrectRecord_sanitized_first ::
  "isPrintTable \<Rightarrow> string list \<Rightarrow> string \<Rightarrow> ProblemDetails" where
  "incorrectRecord_sanitized_first tbl txts challengeSubdomain =
     (let invalidRecord = truncate_characters (replaceInvalidUTF8 (txts ! 0));
          andMore = (if length txts > 1
                     then Sprintf tbl '' (and %d more)'' [AInt (int (length txts) - 1)]
                     else [])
      in Unauthorized tbl ''Incorrect TXT record %q%s found at %s''
           [AString invalidRecord, AString andMore, AString challengeSubdomain])"

text \<open>A plain character: printable ASCII other than the double quote and the backslash.\<close>

definition plain :: "char \<Rightarrow> bool" where
  "plain c \<longleftrightarrow> 0x20 \<le> (of_char c :: nat) \<and> (of_char c :: nat) \<le> 0x7E
               \<and> c \<noteq> dquote \<and> c \<noteq> backslash"

text \<open>A table of printable runes that holds the replacement character, as Go's does.\<close>

definition sampleTable :: isPrintTable where
  "sampleTable r \<longleftrightarrow> r = 0xFFFD"

section \<open>Properties\<close>

subsection \<open>Formatting\<close>

lemma Sprintf_v: "Sprintf tbl ''%v'' [AString s] = s"
  by (simp add: Sprintf_def flag_def printArg_def extra_def)

lemma Sprintf_UnknownHost:
  "Sprintf tbl ''No valid IP addresses found for %s'' [AString h]
   = ''No valid IP addresses found for '' @ h"
  by (simp add: Sprintf_def flag_def printArg_def extra_def)

lemma Sprintf_subdomain: "Sprintf tbl ''%s.%s'' [AString a, AString b] = a @ ''.'' @ b"
  by (simp add: Sprintf_def flag_def printArg_def extra_def)

lemma Sprintf_noTXT:
  "Sprintf tbl ''No TXT record found at %s'' [AString h] = ''No TXT record found at '' @ h"
  by (simp add: Sprintf_def flag_def printArg_def extra_def)

lemma Sprintf_Malformed:
  "Sprintf tbl ''Identifier type for DNS was not itself DNS'' []
   = ''Identifier type for DNS was not itself DNS''"
  by (simp add: Sprintf_def flag_def printArg_def extra_def)

lemma Sprintf_andMore:
  "Sprintf tbl '' (and %d more)'' [AInt n] = '' (and '' @ itoa n @ '' more)''"
  by (simp add: Sprintf_def flag_def printArg_def extra_def)

lemma Sprintf_incorrect:
  "Sprintf tbl ''Incorrect TXT record %q%s found at %s'' [AString a, AString b, AString c]
   = ''Incorrect TXT record '' @ Quote tbl a @ b @ '' found at '' @ c"
  by (simp add: Sprintf_def flag_def printArg_def extra_def)

lemma doPrintf_plain: "CHR ''%'' \<notin> set f \<Longrightarrow> doPrintf tbl f [] = f"
  by (induction f) (auto simp: extra_def)

lemma challengeSubdomain_eq:
  "Sprintf tbl ''%s.%s'' [AString DNSPrefix, AString v] = ''_acme-challenge.'' @ v"
  by (simp add: Sprintf_subdomain DNSPrefix_def)

subsection \<open>The comparison\<close>

lemma bytes_inject: "bytes s = bytes t \<longleftrightarrow> s = t"
proof -
  have "inj (\<lambda>c. of_nat (of_char c) :: byte)"
  proof (rule injI)
    fix c d :: char
    assume "(of_nat (of_char c) :: byte) = of_nat (of_char d)"
    then have "unat (of_nat (of_char c) :: byte) = unat (of_nat (of_char d) :: byte)"
      by simp
    then have "(of_char c :: nat) mod 256 = of_char d mod 256"
      by (simp add: unat_of_nat)
    then show "c = d" by simp
  qed
  then show ?thesis
    unfolding bytes_def by (simp add: inj_map_eq_map)
qed

lemma xor_zero_iff: "(a :: byte) XOR b = 0 \<longleftrightarrow> a = b"
  by (auto simp: bit_eq_iff bit_xor_iff)

lemma fold_or_zero:
  "fold (\<lambda>i v. v OR (x ! i XOR y ! i)) [0..<n] (v0 :: byte) = 0
   \<longleftrightarrow> v0 = 0 \<and> (\<forall>i<n. x ! i = y ! i)"
  by (induction n) (auto simp: less_Suc_eq or_eq_0_iff xor_zero_iff)

lemma ConstantTimeByteEq_zero: "ConstantTimeByteEq x 0 = 1 \<longleftrightarrow> x = 0"
proof (cases "x = 0")
  case True
  then show ?thesis by (simp add: ConstantTimeByteEq_def)
next
  case False
  define w :: uint32 where "w = ucast x"
  have ux: "unat x < 256" using unsigned_less [of x, where 'a = nat] by simp
  have uw: "unat w = unat x"
    using ux by (simp add: w_def unsigned_ucast_eq take_bit_nat_eq_self)
  have "unat x \<noteq> 0" using False by (simp add: unsigned_eq_0_iff)
  then have w0: "w \<noteq> 0" using uw by (metis unat_gt_0 neq0_conv)
  have "unat (w - 1) = unat w - 1" using w0 by (rule unat_minus_one)
  then have "unat (w - 1) < 2 ^ 31" using uw ux by simp
  then have "unat (drop_bit 31 (w - 1)) = 0"
    unfolding unat_drop_bit_eq by (simp add: drop_bit_eq_div)
  then have "uint (drop_bit 31 (w - 1)) = 0"
    by (simp add: uint_nat)
  then show ?thesis using False by (simp add: ConstantTimeByteEq_def w_def)
qed

lemma ConstantTimeCompare_eq: "ConstantTimeCompare x y = 1 \<longleftrightarrow> x = y"
proof (cases "length x = length y")
  case True
  then have "ConstantTimeCompare x y = 1 \<longleftrightarrow> (\<forall>i<length x. x ! i = y ! i)"
    by (simp add: ConstantTimeCompare_def ConstantTimeByteEq_zero fold_or_zero)
  also have "\<dots> \<longleftrightarrow> x = y"
    using True list_eq_iff_nth_eq [of x y] by blast
  finally show ?thesis .
next
  case False
  then show ?thesis by (auto simp: ConstantTimeCompare_def)
qed

lemma compare_loop_eq:
  "compare_loop txts digest authorities identifier =
     (if digest \<in> set txts then Some [\<lparr>Authorities = authorities, Hostname = Value identifier\<rparr>]
      else None)"
  by (induction txts) (auto simp: ConstantTimeCompare_eq bytes_inject)

subsection \<open>The branches of validateDNS01\<close>

lemma validateDNS01_not_DNS:
  assumes "Type identifier \<noteq> IdentifierDNS"
  shows "validateDNS01 tbl va ctx identifier challenge =
    (([], Some \<lparr>Kind = MalformedProblem, Detail = ''Identifier type for DNS was not itself DNS''\<rparr>),
     [Infof ''Identifier type for DNS challenge was not DNS: %s'' [LIdentifier identifier]])"
  using assms by (simp add: validateDNS01_def Malformed_def Sprintf_Malformed)

lemma validateDNS01_lookup:
  assumes "Type identifier = IdentifierDNS"
    and "LookupTXT (dnsClient va) ctx (''_acme-challenge.'' @ Value identifier)
         = (txts, authorities, err)"
  shows "validateDNS01 tbl va ctx identifier challenge =
    (case err of
       Some e \<Rightarrow>
         (([], Some (DNS tbl (Error e) [])),
          [QueryTXT (''_acme-challenge.'' @ Value identifier),
           Infof ''Failed to lookup TXT records for %s. err=[%#v] errStr=[%s]''
             [LIdentifier identifier, LError e, LError e]])
     | None \<Rightarrow>
         if txts = [] then
           (([], Some \<lparr>Kind = UnauthorizedProblem,
                      Detail = ''No TXT record found at _acme-challenge.'' @ Value identifier\<rparr>),
            [QueryTXT (''_acme-challenge.'' @ Value identifier)])
         else if authorizedKeysDigest (ProvidedKeyAuthorization challenge) \<in> set txts then
           (([\<lparr>Authorities = authorities, Hostname = Value identifier\<rparr>], None),
            [QueryTXT (''_acme-challenge.'' @ Value identifier)])
         else
           (([], Some (incorrectRecord tbl txts (''_acme-challenge.'' @ Value identifier))),
            [QueryTXT (''_acme-challenge.'' @ Value identifier)]))"
  using assms
  by (simp add: validateDNS01_def challengeSubdomain_eq compare_loop_eq Unauthorized_def
      Sprintf_noTXT Let_def split: option.splits)

lemma incorrectRecord_Kind: "Kind (incorrectRecord tbl txts sub) = UnauthorizedProblem"
  by (simp add: incorrectRecord_def Unauthorized_def Let_def)

subsection \<open>availableAddresses\<close>

lemma availableAddresses_loop_eq:
  "availableAddresses_loop allAddrs v4 v6 =
     (v4 @ filter (\<lambda>a. To4 a \<noteq> None) allAddrs, v6 @ filter (\<lambda>a. To4 a = None) allAddrs)"
  by (induction allAddrs arbitrary: v4 v6) auto

text \<open>
  C8: for every address sequence, \<^const>\<open>availableAddresses\<close> returns as v4 the addresses
  for which \<^const>\<open>To4\<close> gives an address and as v6 all the others, each in the order of
  the input; the two results together hold every input address as often as the input does,
  and no address is in both.
\<close>

theorem availableAddresses_partition:
  "availableAddresses allAddrs =
     (filter (\<lambda>a. To4 a \<noteq> None) allAddrs, filter (\<lambda>a. To4 a = None) allAddrs)
   \<and> mset (fst (availableAddresses allAddrs)) + mset (snd (availableAddresses allAddrs))
       = mset allAddrs
   \<and> set (fst (availableAddresses allAddrs)) \<inter> set (snd (availableAddresses allAddrs)) = {}"
proof -
  have eq: "availableAddresses allAddrs =
     (filter (\<lambda>a. To4 a \<noteq> None) allAddrs, filter (\<lambda>a. To4 a = None) allAddrs)"
    by (simp add: availableAddresses_def availableAddresses_loop_eq)
  have "mset (filter (\<lambda>a. To4 a \<noteq> None) allAddrs) + mset (filter (\<lambda>a. To4 a = None) allAddrs)
        = mset allAddrs"
    by (induction allAddrs) auto
  moreover have "set (filter (\<lambda>a. To4 a \<noteq> None) allAddrs)
                 \<inter> set (filter (\<lambda>a. To4 a = None) allAddrs) = {}"
    by auto
  ultimately show ?thesis using eq by simp
qed

subsection \<open>getAddrs\<close>

text \<open>
  C7: when the host lookup fails, \<^const>\<open>getAddrs\<close> returns no address and a DNS problem
  whose detail is the text of the error; when the lookup succeeds with no address, it
  returns an UnknownHost problem naming the hostname; when the lookup succeeds with at
  least one address, it returns the addresses as the lookup gave them and no problem.
\<close>

theorem getAddrs_results:
  "(LookupHost (dnsClient va) ctx hostname = (addrs, Some e) \<longrightarrow>
      fst (getAddrs tbl va ctx hostname) = ([], Some \<lparr>Kind = DNSProblem, Detail = Error e\<rparr>))
   \<and> (LookupHost (dnsClient va) ctx hostname = ([], None) \<longrightarrow>
      fst (getAddrs tbl va ctx hostname)
        = ([], Some \<lparr>Kind = UnknownHostProblem,
                     Detail = ''No valid IP addresses found for '' @ hostname\<rparr>))
   \<and> (LookupHost (dnsClient va) ctx hostname = (addrs, None) \<and> addrs \<noteq> [] \<longrightarrow>
      fst (getAddrs tbl va ctx hostname) = (addrs, None))"
  by (simp add: getAddrs_def DNS_def UnknownHost_def Sprintf_v Sprintf_UnknownHost)

theorem getAddrs_results_witness:
  "fst (getAddrs (\<lambda>r. False) \<lparr>dnsClient = stubHost [] (Some (New ''connection refused''))\<rparr> ()
         ''example.com'')
     = ([], Some \<lparr>Kind = DNSProblem, Detail = ''connection refused''\<rparr>)
   \<and> fst (getAddrs (\<lambda>r. False) \<lparr>dnsClient = stubHost [] None\<rparr> () ''example.com'')
     = ([], Some \<lparr>Kind = UnknownHostProblem,
                  Detail = ''No valid IP addresses found for example.com''\<rparr>)
   \<and> fst (getAddrs (\<lambda>r. False)
           \<lparr>dnsClient = stubHost [[192, 0, 2, 1], [10, 0, 0, 1]] None\<rparr> () ''example.com'')
     = ([[192, 0, 2, 1], [10, 0, 0, 1]], None)"
proof -
  have a: "LookupHost (dnsClient \<lparr>dnsClient = stubHost [] (Some (New ''connection refused''))\<rparr>) ()
             ''example.com'' = ([], Some (New ''connection refused''))"
    by (simp add: stubHost_def)
  have b: "LookupHost (dnsClient \<lparr>dnsClient = stubHost [] None\<rparr>) () ''example.com'' = ([], None)"
    by (simp add: stubHost_def)
  have c: "LookupHost (dnsClient \<lparr>dnsClient = stubHost [[192, 0, 2, 1], [10, 0, 0, 1]] None\<rparr>) ()
             ''example.com'' = ([[192, 0, 2, 1], [10, 0, 0, 1]], None)
           \<and> [[192, 0, 2, 1], [10, 0, 0, 1 :: byte]] \<noteq> []"
    by (simp add: stubHost_def)
  show ?thesis
    using getAddrs_results [of "\<lparr>dnsClient = stubHost [] (Some (New ''connection refused''))\<rparr>" "()"
        "''example.com''" "[]" "New ''connection refused''" "\<lambda>r. False"]
      getAddrs_results [of "\<lparr>dnsClient = stubHost [] None\<rparr>" "()" "''example.com''" "[]" "New []"
        "\<lambda>r. False"]
      getAddrs_results [of "\<lparr>dnsClient = stubHost [[192, 0, 2, 1], [10, 0, 0, 1]] None\<rparr>" "()"
        "''example.com''" "[[192, 0, 2, 1], [10, 0, 0, 1]]" "New []" "\<lambda>r. False"]
      a b c
    by simp
qed

subsection \<open>Results and problems\<close>

text \<open>
  C10: for every input, \<^const>\<open>validateDNS01\<close> and \<^const>\<open>getAddrs\<close> each return either no
  sequence (\<^verbatim>\<open>nil\<close>) and a problem, or a sequence that is not empty and no problem: the
  sequence is \<^verbatim>\<open>nil\<close> exactly when the problem is there.
\<close>

theorem exactly_one_result:
  "(fst (fst (validateDNS01 tbl va ctx identifier challenge)) = []
      \<longleftrightarrow> snd (fst (validateDNS01 tbl va ctx identifier challenge)) \<noteq> None)
   \<and> (fst (fst (getAddrs tbl va ctx hostname)) = []
      \<longleftrightarrow> snd (fst (getAddrs tbl va ctx hostname)) \<noteq> None)"
proof
  show "fst (fst (validateDNS01 tbl va ctx identifier challenge)) = []
      \<longleftrightarrow> snd (fst (validateDNS01 tbl va ctx identifier challenge)) \<noteq> None"
  proof (cases "Type identifier = IdentifierDNS")
    case False
    then show ?thesis by (simp add: validateDNS01_not_DNS)
  next
    case True
    obtain txts authorities err where
      "LookupTXT (dnsClient va) ctx (''_acme-challenge.'' @ Value identifier)
         = (txts, authorities, err)"
      by (cases "LookupTXT (dnsClient va) ctx (''_acme-challenge.'' @ Value identifier)") auto
    from validateDNS01_lookup [OF True this] show ?thesis
      by (simp split: option.splits)
  qed
  show "fst (fst (getAddrs tbl va ctx hostname)) = []
      \<longleftrightarrow> snd (fst (getAddrs tbl va ctx hostname)) \<noteq> None"
    by (simp add: getAddrs_def Let_def split: prod.splits option.splits)
qed

subsection \<open>validateDNS01: the identifier type\<close>

text \<open>
  C5, as the claim states it, at an identifier of type \<open>ip\<close>: the problem returned is
  not the Malformed problem with the detail
  \<^verbatim>\<open>identifier type for DNS challenge was not DNS\<close>. That text is the log line of line 48;
  the detail of line 49 is another text.
\<close>

theorem not_DNS_detail_counterexample:
  "snd (fst (validateDNS01 (\<lambda>r. False) \<lparr>dnsClient = stubTXT [] [] None\<rparr> ()
              \<lparr>Type = IdentifierOther ''ip'', Value = ''192.0.2.1''\<rparr>
              \<lparr>ProvidedKeyAuthorization = ''ka''\<rparr>))
   \<noteq> Some \<lparr>Kind = MalformedProblem, Detail = ''identifier type for DNS challenge was not DNS''\<rparr>"
  by (simp add: validateDNS01_not_DNS)

text \<open>
  C5, amended: for every identifier whose type is not DNS and every challenge,
  \<^const>\<open>validateDNS01\<close> returns no record and the Malformed problem with the detail
  \<^verbatim>\<open>Identifier type for DNS was not itself DNS\<close>, and sends no query to the DNS client.
\<close>

theorem not_DNS_is_Malformed:
  "Type identifier \<noteq> IdentifierDNS \<Longrightarrow>
     fst (validateDNS01 tbl va ctx identifier challenge)
       = ([], Some \<lparr>Kind = MalformedProblem,
                    Detail = ''Identifier type for DNS was not itself DNS''\<rparr>)
     \<and> filter isQuery (snd (validateDNS01 tbl va ctx identifier challenge)) = []"
  by (simp add: validateDNS01_not_DNS)

theorem not_DNS_is_Malformed_witness:
  "Type \<lparr>Type = IdentifierOther ''ip'', Value = ''192.0.2.1''\<rparr> \<noteq> IdentifierDNS
   \<and> fst (validateDNS01 (\<lambda>r. False) \<lparr>dnsClient = stubTXT [''x''] [''ns1''] None\<rparr> ()
            \<lparr>Type = IdentifierOther ''ip'', Value = ''192.0.2.1''\<rparr>
            \<lparr>ProvidedKeyAuthorization = ''ka''\<rparr>)
       = ([], Some \<lparr>Kind = MalformedProblem,
                    Detail = ''Identifier type for DNS was not itself DNS''\<rparr>)
   \<and> filter isQuery (snd (validateDNS01 (\<lambda>r. False) \<lparr>dnsClient = stubTXT [''x''] [''ns1''] None\<rparr> ()
            \<lparr>Type = IdentifierOther ''ip'', Value = ''192.0.2.1''\<rparr>
            \<lparr>ProvidedKeyAuthorization = ''ka''\<rparr>)) = []"
proof -
  have h: "Type \<lparr>Type = IdentifierOther ''ip'', Value = ''192.0.2.1''\<rparr> \<noteq> IdentifierDNS"
    by simp
  show ?thesis
    using h not_DNS_is_Malformed [OF h, of "\<lambda>r. False"
        "\<lparr>dnsClient = stubTXT [''x''] [''ns1''] None\<rparr>" "()" "\<lparr>ProvidedKeyAuthorization = ''ka''\<rparr>"]
    by simp
qed

subsection \<open>validateDNS01: a matching TXT value\<close>

lemma validateDNS01_length: "length (fst (fst (validateDNS01 tbl va ctx identifier challenge))) \<le> 1"
proof (cases "Type identifier = IdentifierDNS")
  case False
  then show ?thesis by (simp add: validateDNS01_not_DNS)
next
  case True
  obtain txts authorities err where
    "LookupTXT (dnsClient va) ctx (''_acme-challenge.'' @ Value identifier)
       = (txts, authorities, err)"
    by (cases "LookupTXT (dnsClient va) ctx (''_acme-challenge.'' @ Value identifier)") auto
  from validateDNS01_lookup [OF True this] show ?thesis
    by (simp split: option.splits)
qed

text \<open>
  C1: \<^const>\<open>validateDNS01\<close> never returns more than one record; and for an identifier of
  type DNS, when the TXT lookup at the challenge subdomain succeeds and one of the values
  returned, at whatever position, is the expected proof, it returns exactly one record,
  with the identifier's value as hostname and the authorities of the lookup, no problem,
  and has sent the one TXT query.
\<close>

theorem first_match_succeeds:
  "length (fst (fst (validateDNS01 tbl va ctx identifier challenge))) \<le> 1
   \<and> (Type identifier = IdentifierDNS
      \<and> LookupTXT (dnsClient va) ctx (''_acme-challenge.'' @ Value identifier)
          = (txts, authorities, None)
      \<and> authorizedKeysDigest (ProvidedKeyAuthorization challenge) \<in> set txts
      \<longrightarrow> validateDNS01 tbl va ctx identifier challenge
          = (([\<lparr>Authorities = authorities, Hostname = Value identifier\<rparr>], None),
             [QueryTXT (''_acme-challenge.'' @ Value identifier)]))"
proof (intro conjI impI)
  show "length (fst (fst (validateDNS01 tbl va ctx identifier challenge))) \<le> 1"
    by (rule validateDNS01_length)
next
  assume h: "Type identifier = IdentifierDNS
      \<and> LookupTXT (dnsClient va) ctx (''_acme-challenge.'' @ Value identifier)
          = (txts, authorities, None)
      \<and> authorizedKeysDigest (ProvidedKeyAuthorization challenge) \<in> set txts"
  then have ne: "txts \<noteq> []" by auto
  from h have t: "Type identifier = IdentifierDNS" and
    l: "LookupTXT (dnsClient va) ctx (''_acme-challenge.'' @ Value identifier)
          = (txts, authorities, None)"
    by simp_all
  from validateDNS01_lookup [OF t l] h ne
  show "validateDNS01 tbl va ctx identifier challenge
          = (([\<lparr>Authorities = authorities, Hostname = Value identifier\<rparr>], None),
             [QueryTXT (''_acme-challenge.'' @ Value identifier)])"
    by simp
qed

theorem first_match_succeeds_witness:
  "validateDNS01 (\<lambda>r. False)
     \<lparr>dnsClient = stubTXT [''bogus'', authorizedKeysDigest ''ka''] [''ns1''] None\<rparr> ()
     \<lparr>Type = IdentifierDNS, Value = ''example.com''\<rparr> \<lparr>ProvidedKeyAuthorization = ''ka''\<rparr>
   = (([\<lparr>Authorities = [''ns1''], Hostname = ''example.com''\<rparr>], None),
      [QueryTXT ''_acme-challenge.example.com''])"
proof -
  have h: "Type \<lparr>Type = IdentifierDNS, Value = ''example.com''\<rparr> = IdentifierDNS
    \<and> LookupTXT (dnsClient \<lparr>dnsClient = stubTXT [''bogus'', authorizedKeysDigest ''ka''] [''ns1''] None\<rparr>)
         () (''_acme-challenge.'' @ Value \<lparr>Type = IdentifierDNS, Value = ''example.com''\<rparr>)
       = ([''bogus'', authorizedKeysDigest ''ka''], [''ns1''], None)
    \<and> authorizedKeysDigest (ProvidedKeyAuthorization \<lparr>ProvidedKeyAuthorization = ''ka''\<rparr>)
       \<in> set [''bogus'', authorizedKeysDigest ''ka'']"
    by (simp add: stubTXT_def)
  show ?thesis
    using h first_match_succeeds [of "\<lambda>r. False"
        "\<lparr>dnsClient = stubTXT [''bogus'', authorizedKeysDigest ''ka''] [''ns1''] None\<rparr>" "()"
        "\<lparr>Type = IdentifierDNS, Value = ''example.com''\<rparr>" "\<lparr>ProvidedKeyAuthorization = ''ka''\<rparr>"
        "[''bogus'', authorizedKeysDigest ''ka'']" "[''ns1'']"]
    by simp
qed

subsection \<open>validateDNS01: lookup failure and no TXT value\<close>

text \<open>
  A failed lookup gives a DNS problem. Its detail is the error text run through
  \<^const>\<open>Sprintf\<close> as a format (line 63 passes \<^verbatim>\<open>err.Error()\<close> where \<^verbatim>\<open>getAddrs\<close>,
  line 22, passes \<^verbatim>\<open>"%v", err\<close>): the text itself when it has no percent sign.
\<close>

lemma validateDNS01_lookup_error:
  assumes "Type identifier = IdentifierDNS"
    and "LookupTXT (dnsClient va) ctx (''_acme-challenge.'' @ Value identifier)
         = (txts, authorities, Some e)"
  shows "fst (validateDNS01 tbl va ctx identifier challenge)
         = ([], Some \<lparr>Kind = DNSProblem, Detail = Sprintf tbl (Error e) []\<rparr>)"
    and "CHR ''%'' \<notin> set (Error e) \<Longrightarrow>
         fst (validateDNS01 tbl va ctx identifier challenge)
         = ([], Some \<lparr>Kind = DNSProblem, Detail = Error e\<rparr>)"
  using validateDNS01_lookup [OF assms]
  by (simp_all add: DNS_def Sprintf_def doPrintf_plain)

text \<open>A lookup that succeeds with no value gives the Unauthorized problem naming the subdomain.\<close>

lemma validateDNS01_no_TXT:
  assumes "Type identifier = IdentifierDNS"
    and "LookupTXT (dnsClient va) ctx (''_acme-challenge.'' @ Value identifier)
         = ([], authorities, None)"
  shows "fst (validateDNS01 tbl va ctx identifier challenge)
         = ([], Some \<lparr>Kind = UnauthorizedProblem,
                      Detail = ''No TXT record found at _acme-challenge.'' @ Value identifier\<rparr>)"
  using validateDNS01_lookup [OF assms] by simp


subsection \<open>The expected proof\<close>









subsection \<open>UTF-8: decoded runes are valid, and encoding round-trips\<close>

lemma of_char_lt: "(of_char c :: nat) < 256"
  by (metis of_char_mod_256 mod_less_divisor zero_less_numeral)

lemma first_cases:
  "first s0 = Some (sz, lo, hi) \<Longrightarrow>
     (sz = 2 \<and> 0xC2 \<le> s0 \<and> s0 \<le> 0xDF \<and> lo = 0x80 \<and> hi = 0xBF)
   \<or> (sz = 3 \<and> s0 = 0xE0 \<and> lo = 0xA0 \<and> hi = 0xBF)
   \<or> (sz = 3 \<and> 0xE1 \<le> s0 \<and> s0 \<le> 0xEF \<and> s0 \<noteq> 0xED \<and> lo = 0x80 \<and> hi = 0xBF)
   \<or> (sz = 3 \<and> s0 = 0xED \<and> lo = 0x80 \<and> hi = 0x9F)
   \<or> (sz = 4 \<and> s0 = 0xF0 \<and> lo = 0x90 \<and> hi = 0xBF)
   \<or> (sz = 4 \<and> 0xF1 \<le> s0 \<and> s0 \<le> 0xF3 \<and> lo = 0x80 \<and> hi = 0xBF)
   \<or> (sz = 4 \<and> s0 = 0xF4 \<and> lo = 0x80 \<and> hi = 0x8F)"
  by (auto simp: first_def split: if_splits)

lemma mod_window:
  fixes x a n :: nat
  assumes "a \<le> x" "x < a + n" "a mod n = 0"
  shows "x mod n = x - a"
proof -
  have "x mod n = ((x - a) + a) mod n" using assms(1) by simp
  also have "\<dots> = (x - a) mod n" using assms(3) by (metis mod_add_right_eq add.right_neutral)
  also have "\<dots> = x - a" using assms(1,2) by simp
  finally show ?thesis .
qed

lemma lead2: "0xC0 \<le> s0 \<Longrightarrow> s0 \<le> 0xDF \<Longrightarrow> s0 mod 32 = s0 - (0xC0 :: nat)"
  by (rule mod_window) simp_all

lemma lead3: "0xE0 \<le> s0 \<Longrightarrow> s0 \<le> 0xEF \<Longrightarrow> s0 mod 16 = s0 - (0xE0 :: nat)"
  by (rule mod_window) simp_all

lemma lead4: "0xF0 \<le> s0 \<Longrightarrow> s0 \<le> 0xF7 \<Longrightarrow> s0 mod 8 = s0 - (0xF0 :: nat)"
  by (rule mod_window) simp_all

lemma cont: "0x80 \<le> s \<Longrightarrow> s \<le> 0xBF \<Longrightarrow> s mod 64 = s - (0x80 :: nat)"
  by (rule mod_window) simp_all

lemma lin3:
  fixes a b c :: nat
  assumes "b < 64" "c < 64"
    and "a \<le> 12 \<or> (a = 13 \<and> b < 32) \<or> (14 \<le> a \<and> a \<le> 15)"
  shows "ValidRune (a * 4096 + b * 64 + c)"
  using assms unfolding ValidRune_def MaxRune_def by linarith

lemma lin4:
  fixes a b c d :: nat
  assumes "b < 64" "c < 64" "d < 64"
    and "(a = 0 \<and> 16 \<le> b) \<or> (1 \<le> a \<and> a \<le> 3) \<or> (a = 4 \<and> b < 16)"
  shows "ValidRune (a * 262144 + b * 4096 + c * 64 + d)"
  using assms unfolding ValidRune_def MaxRune_def by linarith

lemma scalar1: "s0 < 0x80 \<Longrightarrow> ValidRune s0"
  unfolding ValidRune_def MaxRune_def by linarith

lemma scalar2: "ValidRune (s0 mod 32 * 64 + s1 mod 64)"
proof -
  have "s0 mod 32 < 32" "s1 mod 64 < 64" by simp_all
  then show ?thesis unfolding ValidRune_def MaxRune_def by linarith
qed

lemma scalar3:
  assumes "first s0 = Some (3, lo, hi)" "lo \<le> s1" "s1 \<le> hi"
  shows "ValidRune (s0 mod 16 * 4096 + s1 mod 64 * 64 + s2 mod 64)"
proof (rule lin3)
  show "s1 mod 64 < 64" "s2 mod 64 < 64" by simp_all
  from first_cases [OF assms(1)] consider
      "0xE0 \<le> s0 \<and> s0 \<le> 0xEF \<and> s0 \<noteq> 0xED"
    | "s0 = 0xED \<and> lo = 0x80 \<and> hi = 0x9F"
    by auto
  then show "s0 mod 16 \<le> 12 \<or> (s0 mod 16 = 13 \<and> s1 mod 64 < 32)
             \<or> (14 \<le> s0 mod 16 \<and> s0 mod 16 \<le> 15)"
  proof cases
    case 1
    then have "s0 mod 16 = s0 - 0xE0" by (intro lead3) simp_all
    then show ?thesis using 1 by linarith
  next
    case 2
    then have "s0 mod 16 = 13" by simp
    moreover have "s1 mod 64 = s1 - 0x80" using 2 assms(2,3) by (intro cont) simp_all
    ultimately show ?thesis using 2 assms(2,3) by simp
  qed
qed

lemma scalar4:
  assumes "first s0 = Some (4, lo, hi)" "lo \<le> s1" "s1 \<le> hi"
  shows "ValidRune (s0 mod 8 * 262144 + s1 mod 64 * 4096 + s2 mod 64 * 64 + s3 mod 64)"
proof (rule lin4)
  show "s1 mod 64 < 64" "s2 mod 64 < 64" "s3 mod 64 < 64" by simp_all
  from first_cases [OF assms(1)] consider
      "s0 = 0xF0 \<and> lo = 0x90 \<and> hi = 0xBF"
    | "0xF1 \<le> s0 \<and> s0 \<le> 0xF3"
    | "s0 = 0xF4 \<and> lo = 0x80 \<and> hi = 0x8F"
    by auto
  then show "(s0 mod 8 = 0 \<and> 16 \<le> s1 mod 64) \<or> (1 \<le> s0 mod 8 \<and> s0 mod 8 \<le> 3)
             \<or> (s0 mod 8 = 4 \<and> s1 mod 64 < 16)"
  proof cases
    case 1
    then have "s0 mod 8 = 0" by simp
    moreover have "s1 mod 64 = s1 - 0x80" using 1 assms(2,3) by (intro cont) simp_all
    ultimately show ?thesis using 1 assms(2,3) by simp
  next
    case 2
    then have "s0 mod 8 = s0 - 0xF0" by (intro lead4) simp_all
    then show ?thesis using 2 by linarith
  next
    case 3
    then have "s0 mod 8 = 4" by simp
    moreover have "s1 mod 64 = s1 - 0x80" using 3 assms(2,3) by (intro cont) simp_all
    ultimately show ?thesis using 3 assms(2,3) by simp
  qed
qed

lemma ValidRune_RuneError: "ValidRune RuneError"
  by (simp add: ValidRune_def RuneError_def MaxRune_def)

lemma DecodeRune_ValidRune: "ValidRune (fst (DecodeRuneInString s))"
proof (cases "length s < 1 \<or> first (of_char (s ! 0)) = None \<or> (of_char (s ! 0) :: nat) < 0x80")
  case True
  then show ?thesis
    by (auto simp: DecodeRuneInString_def Let_def ValidRune_RuneError scalar1)
next
  case False
  then obtain sz lo hi where f: "first (of_char (s ! 0)) = Some (sz, lo, hi)"
    by auto
  from first_cases [OF f] consider "sz = 2" | "sz = 3" | "sz = 4" by auto
  then show ?thesis
  proof cases
    case 1
    with f False show ?thesis
      by (auto simp: DecodeRuneInString_def Let_def ValidRune_RuneError scalar2)
  next
    case 2
    with f False show ?thesis
      by (auto simp: DecodeRuneInString_def Let_def ValidRune_RuneError intro!: scalar3)
  next
    case 3
    with f False show ?thesis
      by (auto simp: DecodeRuneInString_def Let_def ValidRune_RuneError intro!: scalar4)
  qed
qed

lemma of_char_char_of: "b < 256 \<Longrightarrow> of_char (char_of (b :: nat)) = b"
  by simp

lemma Decode1_bytes:
  assumes "b0 < 0x80"
  shows "DecodeRuneInString (char_of b0 # rest) = (b0, 1)"
  using assms by (simp add: DecodeRuneInString_def Let_def)

lemma Decode2_bytes:
  assumes "0xC2 \<le> b0" "b0 \<le> 0xDF" "0x80 \<le> b1" "b1 \<le> 0xBF"
  shows "DecodeRuneInString (char_of b0 # char_of b1 # rest)
         = (b0 mod 32 * 64 + b1 mod 64, 2)"
  using assms by (simp add: DecodeRuneInString_def Let_def first_def)

lemma Decode3_bytes:
  assumes "first b0 = Some (3, lo, hi)" "lo \<le> b1" "b1 \<le> hi" "0x80 \<le> b2" "b2 \<le> 0xBF"
  shows "DecodeRuneInString (char_of b0 # char_of b1 # char_of b2 # rest)
         = (b0 mod 16 * 4096 + b1 mod 64 * 64 + b2 mod 64, 3)"
proof -
  from first_cases [OF assms(1)] have "0x80 \<le> b0" "b0 < 256" "hi < 256" by auto
  then show ?thesis
    using assms by (simp add: DecodeRuneInString_def Let_def continuation_def)
qed

lemma Decode4_bytes:
  assumes "first b0 = Some (4, lo, hi)" "lo \<le> b1" "b1 \<le> hi" "0x80 \<le> b2" "b2 \<le> 0xBF"
    "0x80 \<le> b3" "b3 \<le> 0xBF"
  shows "DecodeRuneInString (char_of b0 # char_of b1 # char_of b2 # char_of b3 # rest)
         = (b0 mod 8 * 262144 + b1 mod 64 * 4096 + b2 mod 64 * 64 + b3 mod 64, 4)"
proof -
  from first_cases [OF assms(1)] have "0x80 \<le> b0" "b0 < 256" "hi < 256" by auto
  then show ?thesis
    using assms by (simp add: DecodeRuneInString_def Let_def continuation_def)
qed

lemma split2:
  fixes r :: nat
  obtains q1 q0 where "q0 < 64" "r = q1 * 64 + q0" "r div 64 = q1" "r mod 64 = q0"
  by (metis mod_less_divisor zero_less_numeral div_mult_mod_eq)

lemma split3:
  fixes r :: nat
  obtains q2 q1 q0 where "q1 < 64" "q0 < 64" "r = q2 * 4096 + q1 * 64 + q0"
    "r div 4096 = q2" "r div 64 mod 64 = q1" "r mod 64 = q0"
proof -
  have d: "r div 4096 = r div 64 div 64" by (simp add: div_mult2_eq)
  have "r = r div 64 * 64 + r mod 64" by simp
  moreover have "r div 64 = r div 64 div 64 * 64 + r div 64 mod 64" by simp
  ultimately have "r = r div 4096 * 4096 + r div 64 mod 64 * 64 + r mod 64"
    using d by linarith
  then show ?thesis
    using that [of "r div 64 mod 64" "r mod 64" "r div 4096"] by simp
qed

lemma split4:
  fixes r :: nat
  obtains q3 q2 q1 q0 where "q2 < 64" "q1 < 64" "q0 < 64"
    "r = q3 * 262144 + q2 * 4096 + q1 * 64 + q0"
    "r div 262144 = q3" "r div 4096 mod 64 = q2" "r div 64 mod 64 = q1" "r mod 64 = q0"
proof -
  have d: "r div 4096 = r div 64 div 64" "r div 262144 = r div 64 div 64 div 64"
    by (simp_all add: div_mult2_eq)
  have "r = r div 64 * 64 + r mod 64" by simp
  moreover have "r div 64 = r div 64 div 64 * 64 + r div 64 mod 64" by simp
  moreover have "r div 64 div 64 = r div 64 div 64 div 64 * 64 + r div 64 div 64 mod 64" by simp
  ultimately have "r = r div 262144 * 262144 + r div 4096 mod 64 * 4096 + r div 64 mod 64 * 64
                       + r mod 64"
    unfolding d by linarith
  then show ?thesis
    using that [of "r div 4096 mod 64" "r div 64 mod 64" "r mod 64" "r div 262144"] by simp
qed


lemma first_E0: "first 0xE0 = Some (3, 0xA0, 0xBF)"
  by (simp add: first_def)

lemma first_ED: "first 0xED = Some (3, 0x80, 0x9F)"
  by (simp add: first_def)

lemma first_3: "0xE1 \<le> b \<Longrightarrow> b \<le> 0xEF \<Longrightarrow> b \<noteq> 0xED \<Longrightarrow> first b = Some (3, 0x80, 0xBF)"
  by (auto simp: first_def)

lemma first_F0: "first 0xF0 = Some (4, 0x90, 0xBF)"
  by (simp add: first_def)

lemma first_F4: "first 0xF4 = Some (4, 0x80, 0x8F)"
  by (simp add: first_def)

lemma first_4: "0xF1 \<le> b \<Longrightarrow> b \<le> 0xF3 \<Longrightarrow> first b = Some (4, 0x80, 0xBF)"
  by (auto simp: first_def)

lemma Decode_encode3:
  assumes "0x800 \<le> r" "r \<le> 0xFFFF" "r < 0xD800 \<or> 0xDFFF < r"
  shows "DecodeRuneInString (encode3 r @ rest) = (r, 3)"
proof -
  obtain q2 q1 q0 where q: "q1 < 64" "q0 < 64" "r = q2 * 4096 + q1 * 64 + q0"
    "r div 4096 = q2" "r div 64 mod 64 = q1" "r mod 64 = q0"
    by (rule split3)
  have q2: "q2 \<le> 15" using q(1-3) assms(2) by linarith
  have m0: "(0xE0 + q2) mod 16 = q2"
    using q2 lead3 [of "0xE0 + q2"] by simp
  have m1: "(0x80 + q1) mod 64 = q1" using q(1) cont [of "0x80 + q1"] by simp
  have m2: "(0x80 + q0) mod 64 = q0" using q(2) cont [of "0x80 + q0"] by simp
  obtain lo hi where f: "first (0xE0 + q2) = Some (3, lo, hi)" "lo \<le> 0x80 + q1" "0x80 + q1 \<le> hi"
  proof (cases "q2 = 0")
    case True
    then have "32 \<le> q1" using q(1-3) assms(1) by linarith
    then show ?thesis using that [of "0xA0" "0xBF"] True first_E0 q(1) by simp
  next
    case z: False
    show ?thesis
    proof (cases "q2 = 13")
      case True
      then have "q1 < 32" using q(1-3) assms(3) by linarith
      then show ?thesis using that [of "0x80" "0x9F"] True first_ED by simp
    next
      case False
      then have "first (0xE0 + q2) = Some (3, 0x80, 0xBF)"
        using z q2 by (intro first_3) simp_all
      then show ?thesis using that [of "0x80" "0xBF"] q(1) by simp
    qed
  qed
  have enc: "encode3 r = [char_of (0xE0 + q2), char_of (0x80 + q1), char_of (0x80 + q0)]"
    by (simp add: encode3_def q(4-6))
  have "DecodeRuneInString (char_of (0xE0 + q2) # char_of (0x80 + q1) # char_of (0x80 + q0) # rest)
        = ((0xE0 + q2) mod 16 * 4096 + (0x80 + q1) mod 64 * 64 + (0x80 + q0) mod 64, 3)"
    using f q(2) by (intro Decode3_bytes) simp_all
  also have "\<dots> = (r, 3)"
    unfolding m0 m1 m2 using q(3) by simp
  finally show ?thesis
    unfolding enc by simp
qed

lemma Decode_encode2:
  assumes "0x80 \<le> r" "r \<le> 0x7FF"
  shows "DecodeRuneInString (char_of (0xC0 + r div 64) # char_of (0x80 + r mod 64) # rest) = (r, 2)"
proof -
  obtain q1 q0 where q: "q0 < 64" "r = q1 * 64 + q0" "r div 64 = q1" "r mod 64 = q0"
    by (rule split2)
  have q1: "2 \<le> q1" "q1 \<le> 31" using q(1,2) assms by linarith+
  have m0: "(0xC0 + q1) mod 32 = q1" using q1 lead2 [of "0xC0 + q1"] by simp
  have m1: "(0x80 + q0) mod 64 = q0" using q(1) cont [of "0x80 + q0"] by simp
  have "DecodeRuneInString (char_of (0xC0 + q1) # char_of (0x80 + q0) # rest)
        = ((0xC0 + q1) mod 32 * 64 + (0x80 + q0) mod 64, 2)"
    using q1 q(1) by (intro Decode2_bytes) simp_all
  also have "\<dots> = (r, 2)"
    unfolding m0 m1 using q(2) by simp
  finally show ?thesis
    unfolding q(3,4) .
qed

lemma Decode_encode4:
  assumes "0x10000 \<le> r" "r \<le> 0x10FFFF"
  shows "DecodeRuneInString (char_of (0xF0 + r div 262144) # char_of (0x80 + r div 4096 mod 64)
           # char_of (0x80 + r div 64 mod 64) # char_of (0x80 + r mod 64) # rest) = (r, 4)"
proof -
  obtain q3 q2 q1 q0 where q: "q2 < 64" "q1 < 64" "q0 < 64"
    "r = q3 * 262144 + q2 * 4096 + q1 * 64 + q0"
    "r div 262144 = q3" "r div 4096 mod 64 = q2" "r div 64 mod 64 = q1" "r mod 64 = q0"
    by (rule split4)
  have q3: "q3 \<le> 4" using q(1-4) assms(2) by linarith
  have m0: "(0xF0 + q3) mod 8 = q3" using q3 lead4 [of "0xF0 + q3"] by simp
  have m1: "(0x80 + q2) mod 64 = q2" using q(1) cont [of "0x80 + q2"] by simp
  have m2: "(0x80 + q1) mod 64 = q1" using q(2) cont [of "0x80 + q1"] by simp
  have m3: "(0x80 + q0) mod 64 = q0" using q(3) cont [of "0x80 + q0"] by simp
  obtain lo hi where f: "first (0xF0 + q3) = Some (4, lo, hi)" "lo \<le> 0x80 + q2" "0x80 + q2 \<le> hi"
  proof (cases "q3 = 0")
    case True
    then have "16 \<le> q2" using q(1-4) assms(1) by linarith
    then show ?thesis using that [of "0x90" "0xBF"] True first_F0 q(1) by simp
  next
    case z: False
    show ?thesis
    proof (cases "q3 = 4")
      case True
      then have "q2 < 16" using q(1-4) assms(2) by linarith
      then show ?thesis using that [of "0x80" "0x8F"] True first_F4 by simp
    next
      case False
      then have "first (0xF0 + q3) = Some (4, 0x80, 0xBF)"
        using z q3 by (intro first_4) simp_all
      then show ?thesis using that [of "0x80" "0xBF"] q(1) by simp
    qed
  qed
  have "DecodeRuneInString (char_of (0xF0 + q3) # char_of (0x80 + q2) # char_of (0x80 + q1)
          # char_of (0x80 + q0) # rest)
        = ((0xF0 + q3) mod 8 * 262144 + (0x80 + q2) mod 64 * 4096 + (0x80 + q1) mod 64 * 64
           + (0x80 + q0) mod 64, 4)"
    using f q(2,3) by (intro Decode4_bytes) simp_all
  also have "\<dots> = (r, 4)"
    unfolding m0 m1 m2 m3 using q(4) by simp
  finally show ?thesis
    unfolding q(5-8) .
qed

lemma Decode_EncodeRune:
  assumes "ValidRune r"
  shows "DecodeRuneInString (EncodeRune r @ rest) = (r, length (EncodeRune r))"
proof -
  consider "r \<le> 0x7F" | "0x80 \<le> r \<and> r \<le> 0x7FF" | "0x800 \<le> r \<and> r \<le> 0xFFFF"
    | "0x10000 \<le> r"
    by linarith
  then show ?thesis
  proof cases
    case 1
    then show ?thesis by (simp add: EncodeRune_def Decode1_bytes)
  next
    case 2
    then show ?thesis by (simp add: EncodeRune_def Decode_encode2)
  next
    case 3
    then show ?thesis
      using assms Decode_encode3 [of r rest]
      by (auto simp: EncodeRune_def ValidRune_def MaxRune_def encode3_def)
  next
    case 4
    then show ?thesis
      using assms Decode_encode4 [of r rest]
      by (auto simp: EncodeRune_def ValidRune_def MaxRune_def)
  qed
qed

subsection \<open>UTF-8: what replaceInvalidUTF8 returns is well-formed\<close>

lemma EncodeRune_length: "1 \<le> length (EncodeRune r)"
  by (simp add: EncodeRune_def encode3_def)

lemma EncodeRune_RuneError_length: "length (EncodeRune RuneError) = 3"
  by (simp add: EncodeRune_def encode3_def RuneError_def MaxRune_def)

lemma ValidString_EncodeRune:
  assumes "ValidRune r"
  shows "ValidString (EncodeRune r @ rest) = ValidString rest"
proof -
  obtain c cs where e: "EncodeRune r = c # cs"
    using EncodeRune_length [of r] by (cases "EncodeRune r") auto
  have d: "DecodeRuneInString (c # cs @ rest) = (r, length (c # cs))"
    using Decode_EncodeRune [OF assms, of rest] e by simp
  have ne: "(r, length (c # cs)) \<noteq> (RuneError, 1)"
    using EncodeRune_RuneError_length e by auto
  have "DecodeRuneInString (c # cs @ rest) \<noteq> (RuneError, 1)"
    using d ne by simp
  then have "ValidString (c # cs @ rest)
             = ValidString (drop (advance (c # cs @ rest)) (c # cs @ rest))"
    by (simp only: ValidString.simps if_False)
  also have "drop (advance (c # cs @ rest)) (c # cs @ rest) = rest"
    using d by (simp add: advance_def)
  finally show ?thesis using e by simp
qed

lemma ValidString_concat_EncodeRune:
  "(\<And>r. r \<in> set rs \<Longrightarrow> ValidRune r) \<Longrightarrow> ValidString (concat (map EncodeRune rs))"
  by (induction rs) (simp_all add: ValidString_EncodeRune)

lemma range_runes_ValidRune: "r \<in> set (range_runes s) \<Longrightarrow> ValidRune r"
  by (induction s rule: range_runes.induct) (auto simp: DecodeRune_ValidRune)

lemma ValidString_replaceInvalidUTF8: "ValidString (replaceInvalidUTF8 input)"
  by (simp add: replaceInvalidUTF8_def ValidString_concat_EncodeRune range_runes_ValidRune)

end
